theory Spec2Isabelle
  imports Main "HOL-Library.Sublist" "HOL-Library.Word"
begin

unbundle bit_operations_syntax

section \<open>JavaScript string primitives used by the server\<close>

text \<open>
  Strings are lists of code units; the model covers the code units below 256, so that
  a \<^typ>\<open>char\<close> is one code unit. \<open>String.prototype.trim\<close> removes white space and line
  terminators at both ends: in this range TAB, LF, VT, FF, CR, SPACE and NBSP.
\<close>

definition nl :: char where
  "nl = CHR 0x0A"

definition is_ws :: "char \<Rightarrow> bool" where
  "is_ws c = (c = CHR 0x09 \<or> c = CHR 0x0A \<or> c = CHR 0x0B \<or> c = CHR 0x0C \<or> c = CHR 0x0D
              \<or> c = CHR 0x20 \<or> c = CHR 0xA0)"

definition trim :: "string \<Rightarrow> string" where
  "trim s = rev (dropWhile is_ws (rev (dropWhile is_ws s)))"

text \<open>
  \<open>s.split(sep)\<close> for a string separator: the occurrences of \<open>sep\<close> are found from the
  left and do not overlap; the pieces between them are returned, empty ones included.
  With the empty separator the string falls apart into its code units.
\<close>

function split :: "string \<Rightarrow> string \<Rightarrow> string list" where
  "split sep [] = (if sep = [] then [] else [[]])"
| "split sep (c # s) =
     (if sep = [] then map (\<lambda>x. [x]) (c # s)
      else if prefix sep (c # s) then [] # split sep (drop (length sep) (c # s))
      else (let r = split sep s in (c # hd r) # tl r))"
  by pat_completeness auto
termination
  by (relation "measure (\<lambda>(sep, s). length s)") (auto simp: prefix_def)

text \<open>\<open>xs.join(sep)\<close>.\<close>

fun join :: "string \<Rightarrow> string list \<Rightarrow> string" where
  "join sep [] = []"
| "join sep [x] = x"
| "join sep (x # y # ys) = x @ sep @ join sep (y # ys)"

text \<open>\<open>s.replace(/\n/g, '<br>')\<close>: every line feed becomes the markup, nothing else changes.\<close>

definition replace_newlines :: "string \<Rightarrow> string" where
  "replace_newlines s = concat (map (\<lambda>c. if c = nl then ''<br>'' else [c]) s)"

text \<open>An occurrence of \<open>sep\<close> somewhere in \<open>s\<close> (\<open>s.includes(sep)\<close>).\<close>

fun occurs :: "string \<Rightarrow> string \<Rightarrow> bool" where
  "occurs sep [] = (sep = [])"
| "occurs sep (c # s) = (prefix sep (c # s) \<or> occurs sep s)"

section \<open>Values of request fields and responses\<close>

text \<open>
  A text field of a request body is a string or absent (\<open>undefined\<close>); \<open>!x\<close> holds for
  the absent field and for the empty string.
\<close>

definition falsy :: "string option \<Rightarrow> bool" where
  "falsy x = (case x of None \<Rightarrow> True | Some s \<Rightarrow> s = [])"

datatype js_error =
    TypeError string
  | SystemError string
  | TransportError string

fun err_message :: "js_error \<Rightarrow> string" where
  "err_message (TypeError m) = m"
| "err_message (SystemError m) = m"
| "err_message (TransportError m) = m"

text \<open>
  What a handler answers: a JSON object \<open>{success, message}\<close> with its HTTP status, a JSON
  listing, or nothing at all because an exception left the handler (the framework's
  default error handler then answers in its own format).
\<close>

datatype response =
    Json nat bool string
  | Listing "string list"
  | Uncaught js_error

section \<open>Rendering of the message body\<close>

text \<open>\<open>`<p>${message.replace(/\n/g, '<br>')}</p>`\<close>, the same in both servers.\<close>

definition render_html :: "string \<Rightarrow> string" where
  "render_html message = ''<p>'' @ replace_newlines message @ ''</p>''"

section \<open>The file system\<close>

text \<open>
  The server keeps three directories under \<open>public/\<close>: \<open>uploads\<close>, where the upload
  middleware stages the files of a request under a time-prefixed name, \<open>files\<close>, the
  Attachment Store, and \<open>templates\<close> with \<open>subjects.txt\<close> and \<open>messages.txt\<close>.
  A directory or file that does not exist is \<open>None\<close>. File names are single path
  components, so that \<open>path.join(dir, name)\<close> names the entry \<open>name\<close> of \<open>dir\<close>.
\<close>

type_synonym bytes = "8 word list"

record templates_dir =
  subjects_txt :: "string option"
  messages_txt :: "string option"

record fs_state =
  uploads :: "string \<rightharpoonup> bytes"
  files :: "(string \<rightharpoonup> bytes) option"
  templates :: "templates_dir option"

text \<open>
  The repository holds two versions of the server: \<open>server.js\<close> sends through the
  nodemailer library (SMTP), the other through the Gmail API with a hand-built envelope.
\<close>

datatype variant = Smtp | GmailApi

definition enoent :: js_error where
  "enoent = SystemError ''ENOENT: no such file or directory''"

definition trim_of_undefined :: js_error where
  "trim_of_undefined = TypeError ''Cannot read properties of undefined (reading 'trim')''"

definition mkdir_templates :: "fs_state \<Rightarrow> fs_state" where
  "mkdir_templates fs =
     (case templates fs of
        None \<Rightarrow> fs\<lparr>templates := Some \<lparr>subjects_txt = None, messages_txt = None\<rparr>\<rparr>
      | Some t \<Rightarrow> fs)"

definition read_subjects :: "fs_state \<Rightarrow> string option" where
  "read_subjects fs = (case templates fs of None \<Rightarrow> None | Some t \<Rightarrow> subjects_txt t)"

definition read_messages :: "fs_state \<Rightarrow> string option" where
  "read_messages fs = (case templates fs of None \<Rightarrow> None | Some t \<Rightarrow> messages_txt t)"


definition write_messages :: "string \<Rightarrow> fs_state \<Rightarrow> js_error + fs_state" where
  "write_messages data fs =
     (case templates fs of
        None \<Rightarrow> Inl enoent
      | Some t \<Rightarrow> Inr (fs\<lparr>templates := Some (t\<lparr>messages_txt := Some data\<rparr>)\<rparr>))"

definition append_subjects :: "string \<Rightarrow> fs_state \<Rightarrow> js_error + fs_state" where
  "append_subjects data fs =
     (case templates fs of
        None \<Rightarrow> Inl enoent
      | Some t \<Rightarrow>
          Inr (fs\<lparr>templates := Some (t\<lparr>subjects_txt :=
                 Some ((case subjects_txt t of None \<Rightarrow> [] | Some c \<Rightarrow> c) @ data)\<rparr>)\<rparr>))"

definition append_messages :: "string \<Rightarrow> fs_state \<Rightarrow> js_error + fs_state" where
  "append_messages data fs =
     (case templates fs of
        None \<Rightarrow> Inl enoent
      | Some t \<Rightarrow>
          Inr (fs\<lparr>templates := Some (t\<lparr>messages_txt :=
                 Some ((case messages_txt t of None \<Rightarrow> [] | Some c \<Rightarrow> c) @ data)\<rparr>)\<rparr>))"

section \<open>The Template Store\<close>

definition delimiter :: string where
  "delimiter = ''---MESSAGE---''"

text \<open>\<open>content.split('\n').filter(line => line.trim() !== '')\<close>\<close>

definition subject_lines :: "string \<Rightarrow> string list" where
  "subject_lines content = filter (\<lambda>line. trim line \<noteq> []) (split [nl] content)"

text \<open>\<open>content.split('---MESSAGE---').filter(msg => msg.trim() !== '')\<close>\<close>

definition message_blocks :: "string \<Rightarrow> string list" where
  "message_blocks content = filter (\<lambda>msg. trim msg \<noteq> []) (split delimiter content)"

text \<open>GET /templates/subjects\<close>

definition subjects_list :: "fs_state \<Rightarrow> string list" where
  "subjects_list fs =
     (case read_subjects fs of None \<Rightarrow> [] | Some content \<Rightarrow> subject_lines content)"

definition get_subjects :: "fs_state \<Rightarrow> response" where
  "get_subjects fs = Listing (subjects_list fs)"

text \<open>GET /templates/messages\<close>

definition messages_list :: "fs_state \<Rightarrow> string list" where
  "messages_list fs =
     (case read_messages fs of
        None \<Rightarrow> []
      | Some content \<Rightarrow> map trim (message_blocks content))"

definition get_messages :: "fs_state \<Rightarrow> response" where
  "get_messages fs = Listing (messages_list fs)"

text \<open>
  POST /templates/subjects/add. The Gmail version creates the templates directory first;
  \<open>server.js\<close> does not. \<open>subject.trim()\<close> throws on an absent field; every exception
  of the body is caught and answered with status 500.
\<close>

definition subjects_add :: "variant \<Rightarrow> string option \<Rightarrow> fs_state \<Rightarrow> response \<times> fs_state" where
  "subjects_add v subject fs0 =
     (let fs = (if v = GmailApi then mkdir_templates fs0 else fs0);
          content = (case read_subjects fs of None \<Rightarrow> [] | Some c \<Rightarrow> c);
          subjects = subject_lines content
      in case subject of
           None \<Rightarrow> (Json 500 False (err_message trim_of_undefined), fs)
         | Some s \<Rightarrow>
             if trim s \<in> set subjects then (Json 200 True ''Subject added successfully'', fs)
             else (case append_subjects ((if content \<noteq> [] then [nl] else []) @ trim s) fs of
                     Inl e \<Rightarrow> (Json 500 False (err_message e), fs)
                   | Inr fs' \<Rightarrow> (Json 200 True ''Subject added successfully'', fs')))"


text \<open>
  POST /templates/messages/add. Unlike the subjects, the handler appends without looking
  at the entries already stored.
\<close>

definition messages_add :: "variant \<Rightarrow> string option \<Rightarrow> fs_state \<Rightarrow> response \<times> fs_state" where
  "messages_add v message fs0 =
     (let fs = (if v = GmailApi then mkdir_templates fs0 else fs0);
          content = (case read_messages fs of None \<Rightarrow> [] | Some c \<Rightarrow> c)
      in case message of
           None \<Rightarrow> (Json 500 False (err_message trim_of_undefined), fs)
         | Some m \<Rightarrow>
             (case append_messages
                     ((if content \<noteq> [] then [nl] else []) @ delimiter @ [nl] @ trim m) fs of
                Inl e \<Rightarrow> (Json 500 False (err_message e), fs)
              | Inr fs' \<Rightarrow> (Json 200 True ''Message added successfully'', fs')))"

text \<open>POST /templates/messages/delete\<close>

definition messages_delete :: "string option \<Rightarrow> fs_state \<Rightarrow> response \<times> fs_state" where
  "messages_delete message fs =
     (case read_messages fs of
        None \<Rightarrow> (Json 200 True ''Message deleted successfully'', fs)
      | Some content \<Rightarrow>
          (case message of
             None \<Rightarrow>
               if message_blocks content = []
               then (case write_messages (join [nl] []) fs of
                       Inl e \<Rightarrow> (Json 500 False (err_message e), fs)
                     | Inr fs' \<Rightarrow> (Json 200 True ''Message deleted successfully'', fs'))
               else (Json 500 False (err_message trim_of_undefined), fs)
           | Some m \<Rightarrow>
               (let messages = filter (\<lambda>msg. trim msg \<noteq> [] \<and> trim msg \<noteq> trim m)
                                 (split delimiter content)
                in case write_messages
                          (join [nl] (map (\<lambda>msg. delimiter @ [nl] @ trim msg) messages)) fs of
                     Inl e \<Rightarrow> (Json 500 False (err_message e), fs)
                   | Inr fs' \<Rightarrow> (Json 200 True ''Message deleted successfully'', fs'))))"

section \<open>The send request\<close>

text \<open>
  An uploaded file as the upload middleware hands it over: the client's file name and
  the name under which the file was staged in \<open>public/uploads\<close>
  (\<open>Date.now() + '-' + originalname\<close>).
\<close>

record upload =
  originalname :: string
  staged :: string

text \<open>\<open>selectedFiles\<close> is absent, one name, or an array of names.\<close>

datatype selection = NoSelection | OneName string | Names "string list"

record send_request =
  from_addr :: "string option"
  to_addr :: "string option"
  subject :: "string option"
  message :: "string option"
  senderName :: "string option"
  selectedFiles :: selection
  req_files :: "upload list"

datatype location = InUploads string | InFiles string

record attachment =
  filename :: string
  path :: location

text \<open>
  \<open>fs.existsSync(path.join(filesFolder, name))\<close>: with the empty name the joined path is the
  folder itself.
\<close>

definition exists_in_files :: "fs_state \<Rightarrow> string \<Rightarrow> bool" where
  "exists_in_files fs name =
     (case files fs of None \<Rightarrow> False | Some d \<Rightarrow> name = [] \<or> d name \<noteq> None)"


definition push :: "'a list \<Rightarrow> 'a \<Rightarrow> 'a list" where
  "push xs x = xs @ [x]"

text \<open>
  \<open>if (selectedFiles) { filesArray = Array.isArray(selectedFiles) ? selectedFiles :
  [selectedFiles]; ... }\<close>: the empty string is falsy, an array never is.
\<close>

definition filesArray :: "selection \<Rightarrow> string list" where
  "filesArray sel =
     (case sel of
        NoSelection \<Rightarrow> []
      | OneName s \<Rightarrow> if s = [] then [] else [s]
      | Names xs \<Rightarrow> xs)"

text \<open>
  The two \<open>forEach\<close> loops that fill the attachment list, the same in both servers:
  first the uploaded files, then each selected name that is not empty and exists in the
  files folder.
\<close>

definition collect_attachments :: "upload list \<Rightarrow> selection \<Rightarrow> fs_state \<Rightarrow> attachment list" where
  "collect_attachments ups sel fs =
     (let uploaded =
            foldl (\<lambda>acc file. push acc \<lparr>filename = originalname file, path = InUploads (staged file)\<rparr>)
              [] ups
      in foldl (\<lambda>acc fileName.
                  if fileName \<noteq> [] \<and> exists_in_files fs fileName
                  then push acc \<lparr>filename = fileName, path = InFiles fileName\<rparr>
                  else acc)
           uploaded (filesArray sel))"

section \<open>Promotion of the staged uploads\<close>

definition mkdir_files :: "fs_state \<Rightarrow> fs_state" where
  "mkdir_files fs = (case files fs of None \<Rightarrow> fs\<lparr>files := Some Map.empty\<rparr> | Some d \<Rightarrow> fs)"

text \<open>\<open>fs.renameSync(file.path, destPath)\<close> and \<open>fs.unlinkSync(file.path)\<close>\<close>

definition renameSync :: "string \<Rightarrow> string \<Rightarrow> fs_state \<Rightarrow> js_error + fs_state" where
  "renameSync src dest fs =
     (case uploads fs src of
        None \<Rightarrow> Inl enoent
      | Some content \<Rightarrow>
          (case files fs of
             None \<Rightarrow> Inl enoent
           | Some d \<Rightarrow>
               Inr (fs\<lparr>uploads := (uploads fs)(src := None), files := Some (d(dest \<mapsto> content))\<rparr>)))"

definition unlinkSync :: "string \<Rightarrow> fs_state \<Rightarrow> js_error + fs_state" where
  "unlinkSync src fs =
     (case uploads fs src of
        None \<Rightarrow> Inl enoent
      | Some content \<Rightarrow> Inr (fs\<lparr>uploads := (uploads fs)(src := None)\<rparr>))"

text \<open>The body of the promotion loop: move the staged file unless the name exists.\<close>

definition promote :: "upload \<Rightarrow> fs_state \<Rightarrow> js_error + fs_state" where
  "promote file fs =
     (if \<not> exists_in_files fs (originalname file)
      then renameSync (staged file) (originalname file) fs
      else unlinkSync (staged file) fs)"

text \<open>The loop stops at the first exception; what was moved before stays moved.\<close>

fun promote_each :: "upload list \<Rightarrow> fs_state \<Rightarrow> js_error option \<times> fs_state" where
  "promote_each [] fs = (None, fs)"
| "promote_each (file # rest) fs =
     (case promote file fs of
        Inl e \<Rightarrow> (Some e, fs)
      | Inr fs' \<Rightarrow> promote_each rest fs')"

definition promote_uploads :: "upload list \<Rightarrow> fs_state \<Rightarrow> js_error option \<times> fs_state" where
  "promote_uploads ups fs =
     (if ups \<noteq> [] then promote_each ups (mkdir_files fs) else (None, fs))"

section \<open>POST /send-email through nodemailer (server.js)\<close>

record mail_options =
  mo_from :: string
  mo_to :: string
  mo_subject :: string
  mo_text :: string
  mo_html :: string
  mo_attachments :: "attachment list option"

text \<open>
  The transport is outside the program: \<open>sendMail\<close> says whether it accepted the mail.
  The handler answers, leaves a file system and the list of mails it handed to the
  transport.
\<close>

definition send_email_smtp ::
  "(mail_options \<Rightarrow> js_error option) \<Rightarrow> send_request \<Rightarrow> fs_state
     \<Rightarrow> response \<times> fs_state \<times> mail_options list" where
  "send_email_smtp sendMail req fs =
     (if falsy (from_addr req) \<or> falsy (to_addr req) \<or> falsy (subject req) \<or> falsy (message req)
      then (Json 400 False ''All fields are required'', fs, [])
      else
        (let from = the (from_addr req);
             fromAddress = (if \<not> falsy (senderName req)
                            then the (senderName req) @ '' <'' @ from @ ''>'' else from);
             atts = collect_attachments (req_files req) (selectedFiles req) fs;
             mailOptions = \<lparr>mo_from = fromAddress, mo_to = the (to_addr req),
                             mo_subject = the (subject req), mo_text = the (message req),
                             mo_html = render_html (the (message req)),
                             mo_attachments = (if atts = [] then None else Some atts)\<rparr>
         in case sendMail mailOptions of
              Some e \<Rightarrow>
                (Json 500 False (''Failed to send email: '' @ err_message e), fs, [mailOptions])
            | None \<Rightarrow>
                (case promote_uploads (req_files req) fs of
                   (Some e, fs') \<Rightarrow>
                     (Json 500 False (''Failed to send email: '' @ err_message e), fs',
                      [mailOptions])
                 | (None, fs') \<Rightarrow>
                     (Json 200 True ''Email sent successfully!'', fs', [mailOptions]))))"

section \<open>Media types\<close>






section \<open>Base64\<close>














section \<open>POST /send-email through the Gmail API\<close>







section \<open>POST /files/delete\<close>

text \<open>
  \<open>path.join(filesFolder, fileName)\<close> stands before the \<open>try\<close> block and throws a
  \<open>TypeError\<close> when \<open>fileName\<close> is not a string; inside the block, removing the folder
  itself (the empty name) fails and is answered with status 500.
\<close>

definition path_arg_undefined :: js_error where
  "path_arg_undefined =
     TypeError ''The path argument must be of type string. Received undefined''"

definition eisdir :: js_error where
  "eisdir = SystemError ''EISDIR: illegal operation on a directory, unlink''"

definition files_delete :: "string option \<Rightarrow> fs_state \<Rightarrow> response \<times> fs_state" where
  "files_delete fileName fs =
     (case fileName of
        None \<Rightarrow> (Uncaught path_arg_undefined, fs)
      | Some name \<Rightarrow>
          if exists_in_files fs name then
            (if name = [] then (Json 500 False (err_message eisdir), fs)
             else (Json 200 True ''File deleted successfully'',
                   fs\<lparr>files := map_option (\<lambda>d. d(name := None)) (files fs)\<rparr>))
          else (Json 404 False ''File not found'', fs))"

text \<open>The structured answer \<open>{success: boolean, message: string}\<close>.\<close>

fun structured :: "response \<Rightarrow> bool" where
  "structured (Json status success msg) = True"
| "structured (Listing xs) = False"
| "structured (Uncaught e) = False"

section \<open>Sequences of template additions\<close>

fun add_messages :: "variant \<Rightarrow> string list \<Rightarrow> fs_state \<Rightarrow> fs_state" where
  "add_messages v [] fs = fs"
| "add_messages v (m # ms) fs = add_messages v ms (snd (messages_add v (Some m) fs))"

fun add_subjects :: "variant \<Rightarrow> string list \<Rightarrow> fs_state \<Rightarrow> fs_state" where
  "add_subjects v [] fs = fs"
| "add_subjects v (a # as) fs = add_subjects v as (snd (subjects_add v (Some a) fs))"

section \<open>Notions used in the statements\<close>










section \<open>Concrete inputs\<close>

definition empty_fs :: fs_state where
  "empty_fs = \<lparr>uploads = Map.empty, files = None, templates = None\<rparr>"

text \<open>Two staged uploads \<open>A\<close> and \<open>B\<close>; the store holds \<open>C\<close> and nothing else.\<close>

definition fs_AB_C :: fs_state where
  "fs_AB_C = \<lparr>uploads = [''1700000000000-A'' \<mapsto> [1], ''1700000000001-B'' \<mapsto> [2]],
              files = Some [''C'' \<mapsto> [3]], templates = None\<rparr>"

definition upload_A :: upload where
  "upload_A = \<lparr>originalname = ''A'', staged = ''1700000000000-A''\<rparr>"

definition upload_B :: upload where
  "upload_B = \<lparr>originalname = ''B'', staged = ''1700000000001-B''\<rparr>"

definition request_AB_CD :: send_request where
  "request_AB_CD =
     \<lparr>from_addr = Some ''me@example.com'', to_addr = Some ''a@b.com'', subject = Some ''Hi'',
      message = Some ''line1\<newline>line2'', senderName = None,
      selectedFiles = Names [''C'', ''D''], req_files = [upload_A, upload_B]\<rparr>"





text \<open>A transport and an API that accept every message.\<close>

definition transport_accepts :: "mail_options \<Rightarrow> js_error option" where
  "transport_accepts mo = None"


text \<open>An existing, empty templates directory, as \<open>server.js\<close> needs it.\<close>

definition fs_templates :: fs_state where
  "fs_templates = \<lparr>uploads = Map.empty, files = None,
                   templates = Some \<lparr>subjects_txt = None, messages_txt = None\<rparr>\<rparr>"

section \<open>Lemmas about the string primitives\<close>

lemma last_dropWhile: "dropWhile P xs \<noteq> [] \<Longrightarrow> last (dropWhile P xs) = last xs"
  by (induction xs) (auto split: if_splits)

lemma dropWhile_fix: "xs = [] \<or> \<not> P (hd xs) \<Longrightarrow> dropWhile P xs = xs"
  by (cases xs) auto

lemma trim_ws_cons: "is_ws w \<Longrightarrow> trim (w # s) = trim s"
  by (simp add: trim_def)

lemma trim_ws_snoc:
  assumes "is_ws w"
  shows "trim (s @ [w]) = trim s"
proof (cases "\<forall>x\<in>set s. is_ws x")
  case True
  then have d: "dropWhile is_ws s = []" by simp
  from True assms show ?thesis by (simp add: trim_def dropWhile_append d)
next
  case False
  with assms show ?thesis by (auto simp: trim_def dropWhile_append)
qed

lemma trim_fix:
  assumes "s = [] \<or> (\<not> is_ws (hd s) \<and> \<not> is_ws (last s))"
  shows "trim s = s"
proof (cases "s = []")
  case True
  then show ?thesis by (simp add: trim_def)
next
  case False
  with assms have h: "\<not> is_ws (hd s)" and l: "\<not> is_ws (last s)" by auto
  from h False have "dropWhile is_ws s = s" by (simp add: dropWhile_fix)
  moreover from l False have "dropWhile is_ws (rev s) = rev s"
    by (simp add: dropWhile_fix hd_rev)
  ultimately show ?thesis by (simp add: trim_def)
qed

lemma trim_ends: "trim s = [] \<or> (\<not> is_ws (hd (trim s)) \<and> \<not> is_ws (last (trim s)))"
proof (cases "trim s = []")
  case True
  then show ?thesis by simp
next
  case False
  define d where "d = dropWhile is_ws s"
  define e where "e = dropWhile is_ws (rev d)"
  have t: "trim s = rev e" by (simp add: trim_def d_def e_def)
  with False have e: "e \<noteq> []" by simp
  then have d: "d \<noteq> []" by (auto simp: e_def)
  from e have "\<not> is_ws (hd e)" unfolding e_def by (rule hd_dropWhile)
  then have l: "\<not> is_ws (last (trim s))" using e by (simp add: t last_rev)
  from e have "last e = last (rev d)" unfolding e_def by (rule last_dropWhile)
  then have "last e = hd d" using d by (simp add: last_rev)
  moreover from d have "\<not> is_ws (hd d)" unfolding d_def by (rule hd_dropWhile)
  ultimately have "\<not> is_ws (hd (trim s))" using e by (simp add: t hd_rev)
  with l show ?thesis by simp
qed

lemma trim_idem: "trim (trim s) = trim s"
  by (rule trim_fix) (rule trim_ends)

lemma split_nonempty: "sep \<noteq> [] \<Longrightarrow> split sep s \<noteq> []"
  by (induction sep s rule: split.induct) (auto simp: Let_def)

lemma split_no_occ: "sep \<noteq> [] \<Longrightarrow> \<not> occurs sep s \<Longrightarrow> split sep s = [s]"
  by (induction sep s rule: split.induct) (auto simp: Let_def)

text \<open>A code unit that is not part of the separator is a barrier for the matches.\<close>

lemma prefix_barrier:
  "x \<notin> set sep \<Longrightarrow> prefix sep (a @ x # b) \<longleftrightarrow> prefix sep a"
  by (auto simp: prefix_append prefix_Cons)

lemma drop_barrier:
  "prefix sep a \<Longrightarrow> drop (length sep) (a @ x # b) = drop (length sep) a @ x # b"
  by (auto simp: prefix_def)

lemma split_barrier:
  assumes "sep \<noteq> []" "x \<notin> set sep"
  shows "split sep (a @ x # b) =
         butlast (split sep a) @ [last (split sep a) @ x # hd (split sep b)] @ tl (split sep b)"
  using assms
proof (induction sep a rule: split.induct)
  case (1 sep)
  then show ?case
    by (cases sep) (auto simp: Let_def prefix_Cons)
next
  case (2 sep c s)
  let ?B = "[x # hd (split sep b)] @ tl (split sep b)"
  show ?case
  proof (cases "prefix sep (c # s)")
    case True
    define S where "S = split sep (drop (length sep) (c # s))"
    have ne: "S \<noteq> []" unfolding S_def using 2(3) by (rule split_nonempty)
    have p: "prefix sep ((c # s) @ x # b)"
      using True prefix_barrier [OF 2(4), of "c # s" b] by simp
    have d: "drop (length sep) ((c # s) @ x # b) = drop (length sep) (c # s) @ x # b"
      using True by (rule drop_barrier)
    have ih: "split sep (drop (length sep) (c # s) @ x # b) =
              butlast S @ [last S @ x # hd (split sep b)] @ tl (split sep b)"
      unfolding S_def using 2(1) [OF 2(3) True 2(3) 2(4)] .
    have l: "split sep ((c # s) @ x # b) = [] # split sep (drop (length sep) ((c # s) @ x # b))"
      using p 2(3) by simp
    have r: "split sep (c # s) = [] # S"
      unfolding S_def using True 2(3) by simp
    show ?thesis unfolding l d ih r using ne by simp
  next
    case False
    define S where "S = split sep s"
    have ne: "S \<noteq> []" unfolding S_def using 2(3) by (rule split_nonempty)
    have p: "\<not> prefix sep ((c # s) @ x # b)"
      using False prefix_barrier [OF 2(4), of "c # s" b] by simp
    have ih: "split sep (s @ x # b) =
              butlast S @ [last S @ x # hd (split sep b)] @ tl (split sep b)"
      unfolding S_def using 2(2) [OF 2(3) False 2(3) 2(4)] .
    have l: "split sep ((c # s) @ x # b) =
             (c # hd (split sep (s @ x # b))) # tl (split sep (s @ x # b))"
      using p 2(3) by (simp add: Let_def)
    have r: "split sep (c # s) = (c # hd S) # tl S"
      unfolding S_def using False 2(3) by (simp add: Let_def)
    show ?thesis
    proof (cases S)
      case Nil
      with ne show ?thesis by simp
    next
      case (Cons y ys)
      then show ?thesis unfolding l ih r by (cases ys) simp_all
    qed
  qed
qed

lemma split_sep_cons:
  "sep \<noteq> [] \<Longrightarrow> split sep (sep @ b) = [] # split sep b"
  by (cases sep) simp_all


lemma nl_notin_delimiter: "nl \<notin> set delimiter"
  by (simp add: delimiter_def nl_def)

lemma is_ws_nl: "is_ws nl"
  by (simp add: is_ws_def nl_def)

lemma occurs_barrier:
  "x \<notin> set sep \<Longrightarrow> occurs sep (a @ x # b) \<longleftrightarrow> occurs sep a \<or> occurs sep b"
proof (induction a)
  case Nil
  then show ?case by (cases sep) (auto simp: prefix_Cons)
next
  case (Cons c a)
  then show ?case using prefix_barrier [OF Cons(2), of "c # a" b] by auto
qed

text \<open>The blocks of a messages file after one more entry has been appended.\<close>

lemma split_appended_message:
  assumes "\<not> occurs delimiter t"
  shows "split delimiter (delimiter @ [nl] @ t) = [[], nl # t]"
    and "split delimiter (c @ [nl] @ delimiter @ [nl] @ t) =
         butlast (split delimiter c) @ [last (split delimiter c) @ [nl], nl # t]"
proof -
  have dne: "delimiter \<noteq> []" by (simp add: delimiter_def)
  have "\<not> occurs delimiter []" using dne by simp
  then have "\<not> occurs delimiter ([] @ nl # t)"
    using assms by (simp only: occurs_barrier [OF nl_notin_delimiter]) simp
  then have "split delimiter (nl # t) = [nl # t]"
    using split_no_occ [OF dne, of "nl # t"] by simp
  then show 1: "split delimiter (delimiter @ [nl] @ t) = [[], nl # t]"
    using split_sep_cons [OF dne, of "nl # t"] by simp
  show "split delimiter (c @ [nl] @ delimiter @ [nl] @ t) =
         butlast (split delimiter c) @ [last (split delimiter c) @ [nl], nl # t]"
    using split_barrier [OF dne nl_notin_delimiter, of c "delimiter @ [nl] @ t"] 1 by simp
qed

lemma message_blocks_append:
  assumes "\<not> occurs delimiter (trim m)"
  shows "map trim (message_blocks ((if c \<noteq> [] then c @ [nl] else []) @ delimiter @ [nl] @ trim m)) =
         map trim (message_blocks c) @ (if trim m = [] then [] else [trim m])"
proof -
  have dne: "delimiter \<noteq> []" by (simp add: delimiter_def)
  have t: "trim (nl # trim m) = trim m"
    by (simp add: trim_ws_cons [OF is_ws_nl] trim_idem)
  show ?thesis
  proof (cases "c = []")
    case True
    then show ?thesis
      using split_appended_message(1) [OF assms] dne
      by (simp add: message_blocks_def t trim_def [of "[]"])
  next
    case False
    define S where "S = split delimiter c"
    have ne: "S \<noteq> []" unfolding S_def using dne by (rule split_nonempty)
    then have S: "S = butlast S @ [last S]" by simp
    have "message_blocks c = filter (\<lambda>msg. trim msg \<noteq> []) (butlast S @ [last S])"
      using S by (simp add: message_blocks_def S_def)
    moreover have "message_blocks (c @ [nl] @ delimiter @ [nl] @ trim m) =
        filter (\<lambda>msg. trim msg \<noteq> []) (butlast S @ [last S @ [nl], nl # trim m])"
      using split_appended_message(2) [OF assms, of c] by (simp add: message_blocks_def S_def)
    moreover have "trim [nl] = []" by (simp add: trim_def is_ws_nl)
    ultimately show ?thesis using False
      by (simp add: t trim_ws_snoc [OF is_ws_nl])
  qed
qed


lemma message_blocks_Nil: "message_blocks [] = []"
  by (simp add: message_blocks_def delimiter_def trim_def)

lemma messages_add_list:
  assumes "\<not> occurs delimiter (trim m)" and "v = GmailApi \<or> templates fs \<noteq> None"
  shows "messages_list (snd (messages_add v (Some m) fs)) =
         messages_list fs @ (if trim m = [] then [] else [trim m])"
    and "templates (snd (messages_add v (Some m) fs)) \<noteq> None"
    and "fst (messages_add v (Some m) fs) = Json 200 True ''Message added successfully''"
proof -
  define fs1 where "fs1 = (if v = GmailApi then mkdir_templates fs else fs)"
  obtain t where t: "templates fs1 = Some t"
    using assms(2) by (cases "templates fs") (auto simp: fs1_def mkdir_templates_def)
  have same: "messages_list fs1 = messages_list fs"
    by (cases "templates fs") (auto simp: fs1_def mkdir_templates_def messages_list_def read_messages_def)
  define c where "c = (case messages_txt t of None \<Rightarrow> [] | Some c \<Rightarrow> c)"
  have l1: "messages_list fs1 = map trim (message_blocks c)"
    using t by (cases "messages_txt t") (simp_all add: messages_list_def read_messages_def c_def message_blocks_Nil)
  have r: "messages_add v (Some m) fs =
     (Json 200 True ''Message added successfully'',
      fs1\<lparr>templates := Some (t\<lparr>messages_txt :=
         Some (c @ (if c \<noteq> [] then [nl] else []) @ delimiter @ [nl] @ trim m)\<rparr>)\<rparr>)"
    using t by (simp add: messages_add_def fs1_def [symmetric] read_messages_def c_def append_messages_def Let_def)
  have e: "c @ (if c \<noteq> [] then [nl] else []) @ delimiter @ [nl] @ trim m =
           (if c \<noteq> [] then c @ [nl] else []) @ delimiter @ [nl] @ trim m"
    by simp
  show "messages_list (snd (messages_add v (Some m) fs)) =
         messages_list fs @ (if trim m = [] then [] else [trim m])"
    unfolding r same [symmetric] l1
    using message_blocks_append [OF assms(1), of c]
    by (auto simp: messages_list_def read_messages_def split: if_splits)
  show "templates (snd (messages_add v (Some m) fs)) \<noteq> None" by (simp add: r)
  show "fst (messages_add v (Some m) fs) = Json 200 True ''Message added successfully''"
    by (simp add: r)
qed

lemma add_messages_list:
  assumes "\<forall>m\<in>set ms. \<not> occurs delimiter (trim m)" and "v = GmailApi \<or> templates fs \<noteq> None"
  shows "messages_list (add_messages v ms fs) =
         messages_list fs @ filter (\<lambda>t. t \<noteq> []) (map trim ms)"
  using assms
proof (induction ms arbitrary: fs)
  case Nil
  then show ?case by simp
next
  case (Cons m ms)
  from Cons.prems have m: "\<not> occurs delimiter (trim m)" by simp
  have "v = GmailApi \<or> templates (snd (messages_add v (Some m) fs)) \<noteq> None"
    using messages_add_list(2) [OF m Cons.prems(2)] by simp
  with Cons have "messages_list (add_messages v ms (snd (messages_add v (Some m) fs))) =
     messages_list (snd (messages_add v (Some m) fs)) @ filter (\<lambda>t. t \<noteq> []) (map trim ms)"
    by simp
  then show ?case using messages_add_list(1) [OF m Cons.prems(2)] by simp
qed

section \<open>Lemmas about the subject lines\<close>









section \<open>Lemmas about the attachment list and the promotion\<close>















section \<open>Lemmas about the envelope\<close>










section \<open>Further lemmas about the handlers\<close>



lemma replace_newlines_append:
  "replace_newlines (a @ b) = replace_newlines a @ replace_newlines b"
  by (simp add: replace_newlines_def)











section \<open>The claims\<close>

subsection \<open>C1\<close>



subsection \<open>C2\<close>



subsection \<open>C3\<close>

text \<open>
  C3 (the code departs from the claim). Adding the same message twice stores it twice:
  the handler for messages appends without the check that the handler for subjects makes.
\<close>

theorem message_added_twice:
  "messages_list (add_messages GmailApi [''Hello\<newline>World'', ''Hello\<newline>World''] empty_fs) =
     [''Hello\<newline>World'', ''Hello\<newline>World'']
   \<and> messages_list (add_messages Smtp [''Hello\<newline>World'', ''Hello\<newline>World''] fs_templates) =
     [''Hello\<newline>World'', ''Hello\<newline>World'']
   \<and> subjects_list (add_subjects GmailApi [''Hello'', ''Hello''] empty_fs) = [''Hello'']"
proof -
  have t: "trim ''Hello\<newline>World'' = ''Hello\<newline>World''" "trim ''Hello'' = ''Hello''"
    by (simp_all add: trim_def is_ws_def)
  have d: "\<not> occurs delimiter (trim ''Hello\<newline>World'')"
    by (simp add: t delimiter_def)
  have 1: "messages_list (add_messages GmailApi [''Hello\<newline>World'', ''Hello\<newline>World''] empty_fs) =
     [''Hello\<newline>World'', ''Hello\<newline>World'']"
    using add_messages_list [of "[''Hello\<newline>World'', ''Hello\<newline>World'']" GmailApi empty_fs] d
    by (simp add: t messages_list_def read_messages_def empty_fs_def)
  have 2: "messages_list (add_messages Smtp [''Hello\<newline>World'', ''Hello\<newline>World''] fs_templates) =
     [''Hello\<newline>World'', ''Hello\<newline>World'']"
    using add_messages_list [of "[''Hello\<newline>World'', ''Hello\<newline>World'']" Smtp fs_templates] d
    by (simp add: t messages_list_def read_messages_def fs_templates_def)
  have 3: "subjects_list (add_subjects GmailApi [''Hello'', ''Hello''] empty_fs) = [''Hello'']"
    by (simp add: empty_fs_def subjects_add_def subjects_list_def subject_lines_def
        mkdir_templates_def read_subjects_def append_subjects_def nl_def t Let_def)
  show ?thesis using 1 2 3 by simp
qed

subsection \<open>C4\<close>




subsection \<open>C5\<close>




subsection \<open>C6\<close>



subsection \<open>C7\<close>




subsection \<open>C8\<close>



subsection \<open>C9\<close>

text \<open>
  C9 (the code departs from the claim). A request to delete a file whose body has no
  \<open>fileName\<close> is not answered in the structured form: the exception of \<open>path.join\<close>
  is raised before the \<open>try\<close> block and leaves the handler.
\<close>

theorem files_delete_uncaught:
  "files_delete None fs = (Uncaught path_arg_undefined, fs)
   \<and> \<not> structured (fst (files_delete None fs))
   \<and> structured (fst (files_delete (Some name) fs))"
  by (simp add: files_delete_def)

subsection \<open>C10\<close>

text \<open>
  C10. The nodemailer server also requires the field \<open>from\<close>: a request whose
  recipient, subject and body are present is answered with status 400 and
  \<open>All fields are required\<close> exactly when \<open>from\<close> is absent or empty, and then nothing
  is handed to the transport and the file system is left as it was.
\<close>

theorem smtp_requires_from:
  assumes "\<not> falsy (to_addr req)" and "\<not> falsy (subject req)" and "\<not> falsy (message req)"
  shows "(falsy (from_addr req) \<longleftrightarrow>
            fst (send_email_smtp sendMail req fs) = Json 400 False ''All fields are required'')
       \<and> (falsy (from_addr req) \<longrightarrow>
            send_email_smtp sendMail req fs = (Json 400 False ''All fields are required'', fs, []))"
  using assms
  by (auto simp: send_email_smtp_def Let_def split: option.splits prod.splits)

theorem smtp_requires_from_witness:
  "send_email_smtp transport_accepts (request_AB_CD\<lparr>from_addr := None\<rparr>) fs_AB_C =
     (Json 400 False ''All fields are required'', fs_AB_C, [])
   \<and> send_email_smtp transport_accepts (request_AB_CD\<lparr>from_addr := Some []\<rparr>) fs_AB_C =
     (Json 400 False ''All fields are required'', fs_AB_C, [])
   \<and> fst (send_email_smtp transport_accepts request_AB_CD fs_AB_C) \<noteq>
       Json 400 False ''All fields are required''"
proof -
  have v: "\<not> falsy (to_addr (request_AB_CD\<lparr>from_addr := x\<rparr>))"
    "\<not> falsy (subject (request_AB_CD\<lparr>from_addr := x\<rparr>))"
    "\<not> falsy (message (request_AB_CD\<lparr>from_addr := x\<rparr>))" for x
    by (simp_all add: falsy_def request_AB_CD_def)
  have 1: "send_email_smtp transport_accepts (request_AB_CD\<lparr>from_addr := None\<rparr>) fs_AB_C =
     (Json 400 False ''All fields are required'', fs_AB_C, [])"
    using smtp_requires_from [OF v, of None transport_accepts fs_AB_C] by (simp add: falsy_def)
  have 2: "send_email_smtp transport_accepts (request_AB_CD\<lparr>from_addr := Some []\<rparr>) fs_AB_C =
     (Json 400 False ''All fields are required'', fs_AB_C, [])"
    using smtp_requires_from [OF v, of "Some []" transport_accepts fs_AB_C] by (simp add: falsy_def)
  have 3: "fst (send_email_smtp transport_accepts request_AB_CD fs_AB_C) \<noteq>
       Json 400 False ''All fields are required''"
    using smtp_requires_from [OF v, of "from_addr request_AB_CD" transport_accepts fs_AB_C]
    by (simp add: falsy_def request_AB_CD_def)
  show ?thesis using 1 2 3 by blast
qed

end
